theory Spec2Isabelle
  imports Main "HOL-Library.Word" "HOL-Library.Sublist"
begin

unbundle bit_operations_syntax

section \<open>Errors\<close>

text \<open>
  Go's \<open>error\<close> values, as far as \<open>main.go\<close> produces or receives them.  The code only
  compares an error with \<open>nil\<close>, logs it, or turns it into text with \<open>fmt.Sprint\<close>.
  Failures of the storage engine other than constraint violations (disk full, I/O errors)
  are outside the model: opening a database or a transaction succeeds, and so does every
  statement that violates no constraint.
\<close>

datatype error =
    Errorf string            \<comment> \<open>\<open>fmt.Errorf\<close>, with the formatted message\<close>
  | Remote string            \<comment> \<open>transport or decoding error of the archive client, with its message\<close>
  | ErrNoRows                \<comment> \<open>\<open>sql.ErrNoRows\<close>\<close>
  | ErrArgs nat nat          \<comment> \<open>database/sql: expected so many arguments, got so many\<close>
  | ErrConstraint string     \<comment> \<open>SQLite: UNIQUE constraint failed: table.column\<close>

section \<open>The work ledger: \<open>Job\<close> and \<open>Tasks\<close>\<close>

record Job =
  collection :: string
  page :: int

text \<open>
  \<open>Tasks\<close> holds a handle on the database \<open>working.db\<close>, six prepared statements and the
  field \<open>length\<close>.  The model keeps the two tables the statements work on, rows in
  insertion order, and the field (\<open>length_t\<close>, a Go \<open>int\<close>: 64 bits, wrapping).

  \<^item> \<open>jobs (name VARCHAR(255) PRIMARY KEY, page INTEGER)\<close>
  \<^item> \<open>done (name VARCHAR(255) PRIMARY KEY, page INTEGER, reason TEXT)\<close>

  The \<open>page\<close> columns are SQLite integers, modelled as \<open>int\<close>: every page starts at
  1 and grows by one per statement, and the model does not follow SQLite beyond 64 bits.
  The Go variable \<open>job.page\<close> does wrap (\<open>page_incr\<close> below).
\<close>

record Tasks =
  jobs_tbl :: "(string \<times> int) list"
  done_tbl :: "(string \<times> int \<times> string) list"
  length_t :: "64 word"

subsection \<open>The prepared statements\<close>

text \<open>\<open>SELECT name, page FROM jobs ORDER BY page ASC LIMIT 1;\<close>\<close>

definition next_QueryRow :: "Tasks \<Rightarrow> error + (string \<times> int)" where
  "next_QueryRow t =
     (case sort_key snd (jobs_tbl t) of
        [] \<Rightarrow> Inl ErrNoRows
      | row # _ \<Rightarrow> Inr row)"

text \<open>\<open>UPDATE jobs SET page = page + 1 WHERE name = (?);\<close>\<close>

definition increment_Exec :: "string \<Rightarrow> Tasks \<Rightarrow> Tasks" where
  "increment_Exec name t =
     t\<lparr>jobs_tbl := map (\<lambda>(n, p). if n = name then (n, p + 1) else (n, p)) (jobs_tbl t)\<rparr>"

text \<open>\<open>INSERT INTO jobs (name, page) VALUES (?, ?) ON CONFLICT DO NOTHING;\<close>\<close>

definition add_Exec :: "string \<Rightarrow> int \<Rightarrow> Tasks \<Rightarrow> Tasks" where
  "add_Exec name p t =
     (if name \<in> fst ` set (jobs_tbl t) then t
      else t\<lparr>jobs_tbl := jobs_tbl t @ [(name, p)]\<rparr>)"

text \<open>\<open>DELETE FROM jobs WHERE name = (?);\<close>\<close>

definition remove_Exec :: "string \<Rightarrow> Tasks \<Rightarrow> Tasks" where
  "remove_Exec name t = t\<lparr>jobs_tbl := filter (\<lambda>(n, p). n \<noteq> name) (jobs_tbl t)\<rparr>"

text \<open>
  \<open>INSERT INTO done (name, page, reason) VALUES (?, ?, ?);\<close>
  The primary key rejects a second row for the same name.
\<close>

definition remember_Exec :: "string \<Rightarrow> int \<Rightarrow> string \<Rightarrow> Tasks \<Rightarrow> error + Tasks" where
  "remember_Exec name p reason t =
     (if name \<in> fst ` set (done_tbl t)
      then Inl (ErrConstraint ''UNIQUE constraint failed: done.name'')
      else Inr (t\<lparr>done_tbl := done_tbl t @ [(name, p, reason)]\<rparr>))"

text \<open>
  \<open>SELECT 1 FROM done WHERE name = (?);\<close>
  The statement has one placeholder.  \<open>args\<close> are the arguments handed to \<open>QueryRow\<close>;
  database/sql refuses a call whose argument count differs from the statement's
  placeholder count, and \<open>Scan\<close> then returns that error.
\<close>

definition hasDone_QueryRow :: "string list \<Rightarrow> Tasks \<Rightarrow> error + int" where
  "hasDone_QueryRow args t =
     (case args of
        [name] \<Rightarrow> (if name \<in> fst ` set (done_tbl t) then Inr 1 else Inl ErrNoRows)
      | _ \<Rightarrow> Inl (ErrArgs 1 (length args)))"

subsection \<open>The methods of \<open>Tasks\<close>\<close>

text \<open>
  \<open>NewTasks\<close> opens the database at \<open>dbPath\<close>, creates the tables where they are missing and
  sets \<open>length\<close> to \<open>SELECT COUNT(*) FROM jobs\<close>.  \<open>disk\<close> gives the tables stored under
  each path (both empty for a file that does not exist yet).
\<close>

definition NewTasks ::
  "(string \<Rightarrow> (string \<times> int) list \<times> (string \<times> int \<times> string) list) \<Rightarrow> string \<Rightarrow> Tasks" where
  "NewTasks disk dbPath =
     (let (js, ds) = disk dbPath
      in \<lparr>jobs_tbl = js, done_tbl = ds, length_t = word_of_nat (length js)\<rparr>)"

definition Len :: "Tasks \<Rightarrow> int" where
  "Len t = sint (length_t t)"

text \<open>\<open>Next\<close>: \<open>Inl err\<close> stands for \<open>log.Fatal(err)\<close>, which ends the process.\<close>

definition Next :: "Tasks \<Rightarrow> error + Job" where
  "Next t =
     (case next_QueryRow t of
        Inl err \<Rightarrow> Inl err
      | Inr (n, p) \<Rightarrow> Inr \<lparr>collection = n, page = p\<rparr>)"

definition Increment :: "string \<Rightarrow> Tasks \<Rightarrow> Tasks" where
  "Increment name t = increment_Exec name t"

text \<open>
  \<open>Add\<close> runs \<open>t.hasDone.QueryRow()\<close> with no argument, then returns early only when
  \<open>err == nil && done == 1\<close>.  Otherwise it runs the insert and increments \<open>length\<close>.
\<close>

definition Add :: "string \<Rightarrow> Tasks \<Rightarrow> Tasks" where
  "Add name t =
     (if (case hasDone_QueryRow [] t of Inr d \<Rightarrow> d = 1 | Inl err \<Rightarrow> False) then t
      else (let t' = add_Exec name 1 t in t'\<lparr>length_t := length_t t' + 1\<rparr>))"

text \<open>
  \<open>Remove\<close> deletes the job row, then inserts the done row; a failure of that insert is
  logged and otherwise ignored.  \<open>length\<close> is decremented in every case.
\<close>

definition Remove :: "Job \<Rightarrow> string \<Rightarrow> Tasks \<Rightarrow> Tasks" where
  "Remove job reason t =
     (let t1 = remove_Exec (collection job) t;
          t2 = (case remember_Exec (collection job) (page job) reason t1 of
                  Inl err \<Rightarrow> t1
                | Inr t' \<Rightarrow> t')
      in t2\<lparr>length_t := length_t t2 - 1\<rparr>)"

subsection \<open>Sequences of ledger operations\<close>

datatype ledger_op = OpAdd string | OpIncrement string | OpRemove Job string

fun apply_op :: "ledger_op \<Rightarrow> Tasks \<Rightarrow> Tasks" where
  "apply_op (OpAdd name) t = Add name t"
| "apply_op (OpIncrement name) t = Increment name t"
| "apply_op (OpRemove job reason) t = Remove job reason t"

definition run_ops :: "ledger_op list \<Rightarrow> Tasks \<Rightarrow> Tasks" where
  "run_ops ops t = fold apply_op ops t"

text \<open>The ledger \<open>NewTasks\<close> returns on a database file that does not exist yet.\<close>

definition empty_ledger :: Tasks where
  "empty_ledger = NewTasks (\<lambda>path. ([], [])) ''working.db''"

definition active :: "Tasks \<Rightarrow> string set" where
  "active t = fst ` set (jobs_tbl t)"

definition resolved :: "Tasks \<Rightarrow> string set" where
  "resolved t = fst ` set (done_tbl t)"

section \<open>The hash store: \<open>Storage\<close>\<close>

type_synonym byte = "8 word"

text \<open>One element of \<open>ItemMetadata.Files\<close>: the JSON fields \<open>sha1\<close> and \<open>name\<close>.\<close>

record File =
  Hash :: string
  Name :: string

record ItemMetadata =
  Files :: "File list"
  IsCollection :: bool

text \<open>
  \<open>Storage\<close> holds a handle on a database and two prepared statements.  The model keeps
  the data source name the handle was opened with (\<open>db_name\<close>) and the two tables:

  \<^item> \<open>archive_items (id INTEGER PRIMARY KEY AUTOINCREMENT, name VARCHAR(255) UNIQUE NOT NULL)\<close>,
    with \<open>seq\<close> the largest id handed out so far (SQLite's \<open>sqlite_sequence\<close>);
  \<^item> \<open>hashes (hash BINARY(20) PRIMARY KEY, item INTEGER)\<close>.
\<close>

record Storage =
  db_name :: string
  archive_items :: "(int \<times> string) list"
  seq :: int
  hashes :: "(byte list \<times> int) list"

text \<open>
  \<open>NewStorage\<close> calls \<open>sql.Open("sqlite3", "hashes.db")\<close> and creates the tables where they
  are missing.  \<open>disk\<close> gives the tables stored under each path.
\<close>

definition NewStorage ::
  "(string \<Rightarrow> (int \<times> string) list \<times> int \<times> (byte list \<times> int) list) \<Rightarrow> string \<Rightarrow> Storage" where
  "NewStorage disk dbPath =
     (let (items, sq, hs) = disk ''hashes.db''
      in \<lparr>db_name = ''hashes.db'', archive_items = items, seq = sq, hashes = hs\<rparr>)"

text \<open>
  \<open>INSERT INTO archive_items (name) VALUES (?);\<close> with \<open>res.LastInsertId()\<close>.
  The name is unique; the new id is one more than the largest id so far.
\<close>

definition insName_Exec :: "string \<Rightarrow> Storage \<Rightarrow> error + (Storage \<times> int)" where
  "insName_Exec item s =
     (if item \<in> snd ` set (archive_items s)
      then Inl (ErrConstraint ''UNIQUE constraint failed: archive_items.name'')
      else (let item_id = fold max (map fst (archive_items s)) (seq s) + 1
            in Inr (s\<lparr>archive_items := archive_items s @ [(item_id, item)], seq := item_id\<rparr>, item_id)))"

text \<open>
  \<open>INSERT INTO hashes (hash, item) VALUES (?, ?);\<close>
  The primary key rejects a hash that the table already holds.
\<close>

definition insHash_Exec :: "byte list \<Rightarrow> int \<Rightarrow> Storage \<Rightarrow> error + Storage" where
  "insHash_Exec hexed item_id s =
     (if hexed \<in> fst ` set (hashes s)
      then Inl (ErrConstraint ''UNIQUE constraint failed: hashes.hash'')
      else Inr (s\<lparr>hashes := hashes s @ [(hexed, item_id)]\<rparr>))"

subsection \<open>Transactions\<close>

text \<open>
  \<open>s.db.Begin()\<close> returns a \<open>Tx\<close> bound to a connection of its own.  A statement belongs to
  the transaction only when it is run through the handle (\<open>tx.Exec\<close>, \<open>tx.Stmt(stmt).Exec\<close>).
  \<open>insName\<close> and \<open>insHash\<close> are prepared on the database handle in \<open>NewStorage\<close> and run
  with \<open>Stmt.Exec\<close>: database/sql runs them on another pooled connection, in autocommit
  mode.  The model keeps, in a \<open>Tx\<close>, the statements run through the handle; \<open>Commit\<close>
  applies them and \<open>Rollback\<close> drops them.
\<close>

datatype stmt = InsName string | InsHash "byte list" int

record Tx =
  in_tx :: "stmt list"

fun apply_stmt :: "stmt \<Rightarrow> Storage \<Rightarrow> Storage" where
  "apply_stmt (InsName item) s =
     (case insName_Exec item s of Inl err \<Rightarrow> s | Inr (s', item_id) \<Rightarrow> s')"
| "apply_stmt (InsHash hexed item_id) s =
     (case insHash_Exec hexed item_id s of Inl err \<Rightarrow> s | Inr s' \<Rightarrow> s')"

definition Begin :: "Storage \<Rightarrow> Tx" where
  "Begin s = \<lparr>in_tx = []\<rparr>"

definition Commit :: "Tx \<Rightarrow> Storage \<Rightarrow> Storage" where
  "Commit tx s = fold apply_stmt (in_tx tx) s"

definition Rollback :: "Tx \<Rightarrow> Storage \<Rightarrow> Storage" where
  "Rollback tx s = s"

subsection \<open>\<open>encoding/hex\<close>\<close>

datatype hex_error = InvalidByteError char | ErrLength

definition fromHexChar :: "char \<Rightarrow> byte option" where
  "fromHexChar c =
     (let n = (of_char c :: nat)
      in if 48 \<le> n \<and> n \<le> 57 then Some (word_of_nat (n - 48))
         else if 97 \<le> n \<and> n \<le> 102 then Some (word_of_nat (n - 97 + 10))
         else if 65 \<le> n \<and> n \<le> 70 then Some (word_of_nat (n - 65 + 10))
         else None)"

text \<open>
  \<open>hex.DecodeString\<close>: two characters give one byte; the first character that is not a
  hexadecimal digit is an error, and so is a character left over at the end.
\<close>

fun hex_DecodeString :: "string \<Rightarrow> hex_error + byte list" where
  "hex_DecodeString [] = Inr []"
| "hex_DecodeString [p] =
     (case fromHexChar p of None \<Rightarrow> Inl (InvalidByteError p) | Some a \<Rightarrow> Inl ErrLength)"
| "hex_DecodeString (p # q # rest) =
     (case fromHexChar p of
        None \<Rightarrow> Inl (InvalidByteError p)
      | Some a \<Rightarrow>
          (case fromHexChar q of
             None \<Rightarrow> Inl (InvalidByteError q)
           | Some b \<Rightarrow>
               (case hex_DecodeString rest of
                  Inl err \<Rightarrow> Inl err
                | Inr bs \<Rightarrow> Inr ((push_bit 4 a OR b) # bs))))"

subsection \<open>\<open>Storage.NewEntry\<close>\<close>

text \<open>
  The body of the loop over \<open>im.Files\<close>: the state is the store and the flag \<open>inserted\<close>;
  every \<open>continue\<close> leaves both as they are.
\<close>

definition insert_file :: "string \<Rightarrow> int \<Rightarrow> File \<Rightarrow> Storage \<times> bool \<Rightarrow> Storage \<times> bool" where
  "insert_file item item_id f st =
     (if Name f = ''__ia_thumb.jpg'' then st
      else if prefix item (Name f) \<and>
              (let suffix = drop (length item) (Name f)
               in suffix = ''_archive.torrent'' \<or> suffix = ''_files.xml'' \<or>
                  suffix = ''_meta.sqlite'' \<or> suffix = ''_meta.xml'' \<or>
                  suffix = ''_reviews.xml'')
      then st
      else if length (Hash f) \<noteq> 40 then st
      else (case hex_DecodeString (Hash f) of
              Inl err \<Rightarrow> st
            | Inr hexed \<Rightarrow>
                (case insHash_Exec hexed item_id (fst st) of
                   Inl err \<Rightarrow> st
                 | Inr s' \<Rightarrow> (s', True))))"

primrec insert_files :: "string \<Rightarrow> int \<Rightarrow> File list \<Rightarrow> Storage \<times> bool \<Rightarrow> Storage \<times> bool" where
  "insert_files item item_id [] st = st"
| "insert_files item item_id (f # fs) st = insert_files item item_id fs (insert_file item item_id f st)"

text \<open>\<open>NewEntry\<close> returns the error (\<open>None\<close> for \<open>nil\<close>) and the store it leaves.\<close>

definition NewEntry :: "ItemMetadata \<Rightarrow> string \<Rightarrow> Storage \<Rightarrow> error option \<times> Storage" where
  "NewEntry im item s =
     (if length (Files im) = 0 then (Some (Errorf ''no files''), s)
      else (let tx = Begin s
            in case insName_Exec item s of
                 Inl err \<Rightarrow> (Some err, Rollback tx s)
               | Inr (s1, item_id) \<Rightarrow>
                   (let (s2, inserted) = insert_files item item_id (Files im) (s1, False)
                    in if \<not> inserted then (Some (Errorf ''no valid files''), Rollback tx s2)
                       else (None, Commit tx s2))))"

section \<open>The archive client\<close>

text \<open>
  The remote archive, as the three kinds of request of \<open>main.go\<close> see it.  Its answers
  may change over time, so each takes the number of requests made before.
  \<open>search\<close> answers the advanced search (collection, rows, page) with the identifiers of
  \<open>response.docs\<close>; \<open>mediatype\<close> and \<open>files\<close> answer the two metadata requests.
\<close>

record Client =
  search :: "nat \<Rightarrow> string \<Rightarrow> int \<Rightarrow> int \<Rightarrow> error + string list"
  mediatype :: "nat \<Rightarrow> string \<Rightarrow> error + string"
  files :: "nat \<Rightarrow> string \<Rightarrow> error + File list"

text \<open>Decimal text of an integer, as \<open>%d\<close> prints it.\<close>

fun dec_nat :: "nat \<Rightarrow> string" where
  "dec_nat n =
     (if n < 10 then [char_of (48 + n)]
      else dec_nat (n div 10) @ [char_of (48 + n mod 10)])"

definition dec_int :: "int \<Rightarrow> string" where
  "dec_int i = (if i < 0 then CHR ''-'' # dec_nat (nat (- i)) else dec_nat (nat i))"

text \<open>The text of an error, as \<open>fmt.Sprint(err)\<close> gives it.\<close>

fun Sprint :: "error \<Rightarrow> string" where
  "Sprint (Errorf m) = m"
| "Sprint (Remote m) = m"
| "Sprint ErrNoRows = ''sql: no rows in result set''"
| "Sprint (ErrArgs w g) = ''sql: expected '' @ dec_nat w @ '' arguments, got '' @ dec_nat g"
| "Sprint (ErrConstraint m) = m"

text \<open>
  \<open>NewCollectionSubset\<close> returns the error or the names of \<open>co.Resp.Buf\<close>, and the number
  of requests made so far (none is made when the arguments are rejected).
\<close>

definition NewCollectionSubset ::
  "Client \<Rightarrow> nat \<Rightarrow> string \<Rightarrow> int \<Rightarrow> int \<Rightarrow> (error + string list) \<times> nat" where
  "NewCollectionSubset client n collectionName count pg =
     (if count < 1 \<or> pg < 1
      then (Inl (Errorf (''count ('' @ dec_int count @ '') and page ('' @ dec_int pg
                         @ '') must be >= 1'')), n)
      else (search client n collectionName count pg, n + 1))"

definition NewItemMetadata ::
  "Client \<Rightarrow> nat \<Rightarrow> string \<Rightarrow> (error + ItemMetadata) \<times> nat" where
  "NewItemMetadata client n item =
     (case mediatype client n item of
        Inl err \<Rightarrow> (Inl err, n + 1)
      | Inr t \<Rightarrow>
          (if t = ''collection'' then (Inr \<lparr>Files = [], IsCollection = True\<rparr>, n + 1)
           else (case files client (n + 1) item of
                   Inl err \<Rightarrow> (Inl err, n + 2)
                 | Inr fs \<Rightarrow> (Inr \<lparr>Files = fs, IsCollection = False\<rparr>, n + 2))))"

section \<open>The crawl loop of \<open>main\<close>\<close>

record State =
  tasks :: Tasks
  storage :: Storage
  requests :: nat

definition batchSize :: int where
  "batchSize = 1000"

text \<open>\<open>job.page++\<close> on a Go \<open>int\<close>: 64 bits, two's complement, wrapping.\<close>

definition page_incr :: "int \<Rightarrow> int" where
  "page_incr p = sint (word_of_int p + 1 :: 64 word)"

text \<open>The loop over \<open>co.Resp.Buf\<close> (the pause before each request has no effect on the state).\<close>

fun items_loop :: "Client \<Rightarrow> string list \<Rightarrow> State \<Rightarrow> State" where
  "items_loop client [] st = st"
| "items_loop client (itm # rest) st =
     (case NewItemMetadata client (requests st) itm of
        (Inl err, n) \<Rightarrow> items_loop client rest (st\<lparr>requests := n\<rparr>)
      | (Inr im, n) \<Rightarrow>
          (if IsCollection im
           then items_loop client rest (st\<lparr>tasks := Add itm (tasks st), requests := n\<rparr>)
           else items_loop client rest
                  (st\<lparr>storage := snd (NewEntry im itm (storage st)), requests := n\<rparr>)))"

text \<open>What follows a successful fetch: \<open>co\<close> holds the names of \<open>co.Resp.Buf\<close>.\<close>

definition after_fetch :: "Client \<Rightarrow> Job \<Rightarrow> string list \<Rightarrow> State \<Rightarrow> State" where
  "after_fetch client job co st =
     (if length co = 0 then st\<lparr>tasks := Remove job [] (tasks st)\<rparr>
      else (let st' = items_loop client co st
            in st'\<lparr>tasks := Increment (collection job) (tasks st')\<rparr>))"

text \<open>
  One pass through the body of \<open>for tasks.Len() > 0\<close>, from \<open>job := tasks.Next()\<close> on
  (the check of the interrupt channel before it touches no state).
  \<open>Inl err\<close> stands for \<open>log.Fatal(err)\<close>.
\<close>

definition iteration :: "Client \<Rightarrow> State \<Rightarrow> error + State" where
  "iteration client st =
     (case Next (tasks st) of
        Inl err \<Rightarrow> Inl err
      | Inr job \<Rightarrow>
          (case NewCollectionSubset client (requests st) (collection job) batchSize (page job) of
             (Inr co, n) \<Rightarrow> Inr (after_fetch client job co (st\<lparr>requests := n\<rparr>))
           | (Inl err, n) \<Rightarrow>
               (let job' = job\<lparr>page := page_incr (page job)\<rparr>
                in case NewCollectionSubset client n (collection job') batchSize (page job') of
                     (Inl err', n') \<Rightarrow>
                       Inr (st\<lparr>tasks := Remove job' (Sprint err') (tasks st), requests := n'\<rparr>)
                   | (Inr co, n') \<Rightarrow>
                       Inr (after_fetch client job' co
                              (st\<lparr>tasks := Increment (collection job') (tasks st),
                                   requests := n'\<rparr>)))))"

section \<open>The filtering policy in the specification's words\<close>

text \<open>
  The five suffixes of generated metadata files, the bytes a file's hash stands for, and
  the test a file has to pass before its hash is handed to the store: it is not the
  thumbnail, its name is not the item name followed by one of the five suffixes, and its
  hash is the hexadecimal text of exactly 20 bytes.
\<close>

definition generated_suffixes :: "string list" where
  "generated_suffixes =
     [''_archive.torrent'', ''_files.xml'', ''_meta.sqlite'', ''_meta.xml'', ''_reviews.xml'']"

definition decoded :: "File \<Rightarrow> byte list" where
  "decoded f = (case hex_DecodeString (Hash f) of Inl err \<Rightarrow> [] | Inr bs \<Rightarrow> bs)"

definition accepted :: "string \<Rightarrow> File \<Rightarrow> bool" where
  "accepted item f \<longleftrightarrow>
     Name f \<noteq> ''__ia_thumb.jpg''
     \<and> Name f \<notin> (\<lambda>sfx. item @ sfx) ` set generated_suffixes
     \<and> (case hex_DecodeString (Hash f) of Inl err \<Rightarrow> False | Inr bs \<Rightarrow> length bs = 20)"

section \<open>Example ledgers, stores and archives\<close>

text \<open>Three ledgers reached from the empty one.\<close>

definition ledger_one :: Tasks where
  "ledger_one = run_ops [OpAdd ''a''] empty_ledger"

definition ledger_retired :: Tasks where
  "ledger_retired =
     run_ops [OpAdd ''a'', OpRemove \<lparr>collection = ''a'', page = 1\<rparr> ''''] empty_ledger"

definition ledger_readded :: Tasks where
  "ledger_readded =
     run_ops [OpAdd ''a'', OpRemove \<lparr>collection = ''a'', page = 1\<rparr> '''', OpAdd ''a'']
       empty_ledger"

definition ledger_ABC :: Tasks where
  "ledger_ABC =
     \<lparr>jobs_tbl = [(''A'', 3), (''B'', 1), (''C'', 1)], done_tbl = [], length_t = 3\<rparr>"

text \<open>A disk on which \<open>other.db\<close> holds one item and every other file is new.\<close>

definition disk_two ::
  "string \<Rightarrow> (int \<times> string) list \<times> int \<times> (byte list \<times> int) list" where
  "disk_two path = (if path = ''other.db'' then ([(1, ''x'')], 1, []) else ([], 0, []))"

definition empty_store :: Storage where
  "empty_store = NewStorage (\<lambda>path. ([], 0, [])) ''hashes.db''"

definition thumb :: File where
  "thumb = \<lparr>Hash = ''aaaaaaaaaaaaaaaaaaaaaaaaaaaaaaaaaaaaaaaa'', Name = ''__ia_thumb.jpg''\<rparr>"

definition x_meta :: File where
  "x_meta = \<lparr>Hash = ''bbbbbbbbbbbbbbbbbbbbbbbbbbbbbbbbbbbbbbbb'', Name = ''x_meta.xml''\<rparr>"

definition data_bin :: File where
  "data_bin = \<lparr>Hash = ''00112233445566778899aAbBcCdDeEfF01234567'', Name = ''data.bin''\<rparr>"

definition more_bin :: File where
  "more_bin = \<lparr>Hash = ''ffffffffffffffffffffffffffffffffffffffff'', Name = ''more.bin''\<rparr>"

text \<open>The store after item \<open>x\<close> has been recorded with one valid file.\<close>

definition store_x :: Storage where
  "store_x =
     snd (NewEntry \<lparr>Files = [thumb, x_meta, data_bin], IsCollection = False\<rparr> ''x'' empty_store)"

text \<open>An archive in which every collection is empty.\<close>

definition client_empty :: Client where
  "client_empty =
     \<lparr>search = (\<lambda>n name count pg. Inr []),
      mediatype = (\<lambda>n item. Inl (Remote ''unavailable'')),
      files = (\<lambda>n item. Inl (Remote ''unavailable''))\<rparr>"

text \<open>An archive whose first request fails and whose every listing page is empty.\<close>

definition client_retry_empty :: Client where
  "client_retry_empty =
     \<lparr>search = (\<lambda>n name count pg. if n = 0 then Inl (Remote ''timeout'') else Inr []),
      mediatype = (\<lambda>n item. Inl (Remote ''unavailable'')),
      files = (\<lambda>n item. Inl (Remote ''unavailable''))\<rparr>"

text \<open>
  An archive whose first request fails and whose every listing page holds one leaf item
  without files.
\<close>

definition client_retry_leaf :: Client where
  "client_retry_leaf =
     \<lparr>search = (\<lambda>n name count pg. if n = 0 then Inl (Remote ''timeout'') else Inr [''leaf'']),
      mediatype = (\<lambda>n item. Inr ''texts''),
      files = (\<lambda>n item. Inr [])\<rparr>"

definition state_one :: State where
  "state_one = \<lparr>tasks = ledger_one, storage = empty_store, requests = 0\<rparr>"

definition state_readded :: State where
  "state_readded = \<lparr>tasks = ledger_readded, storage = empty_store, requests = 0\<rparr>"

section \<open>Properties of the work ledger\<close>

subsection \<open>What each method does to the tables\<close>

lemma hasDone_unbound: "hasDone_QueryRow [] t = Inl (ErrArgs 1 0)"
  by (simp add: hasDone_QueryRow_def)

lemma Add_unfold:
  "Add name t = (add_Exec name 1 t)\<lparr>length_t := length_t (add_Exec name 1 t) + 1\<rparr>"
  by (simp add: Add_def hasDone_unbound Let_def)

lemma empty_ledger_simps:
  "jobs_tbl empty_ledger = []" "done_tbl empty_ledger = []" "length_t empty_ledger = 0"
  by (simp_all add: empty_ledger_def NewTasks_def)

lemmas ledger_eval = run_ops_def Add_unfold Remove_def add_Exec_def remove_Exec_def
  remember_Exec_def empty_ledger_simps resolved_def active_def Len_def Let_def
  Increment_def increment_Exec_def

lemma ledger_one_eq:
  "ledger_one = \<lparr>jobs_tbl = [(''a'', 1)], done_tbl = [], length_t = 1\<rparr>"
  by (simp add: ledger_one_def ledger_eval empty_ledger_def NewTasks_def)

lemma ledger_retired_eq:
  "ledger_retired = \<lparr>jobs_tbl = [], done_tbl = [(''a'', 1, '''')], length_t = 0\<rparr>"
  by (simp add: ledger_retired_def ledger_eval empty_ledger_def NewTasks_def)

lemma ledger_readded_eq:
  "ledger_readded = \<lparr>jobs_tbl = [(''a'', 1)], done_tbl = [(''a'', 1, '''')], length_t = 1\<rparr>"
  by (simp add: ledger_readded_def ledger_eval empty_ledger_def NewTasks_def)

lemma Remove_jobs:
  "jobs_tbl (Remove j r t) = filter (\<lambda>(n, p). n \<noteq> collection j) (jobs_tbl t)"
  by (simp add: Remove_def remove_Exec_def remember_Exec_def Let_def)

lemma Remove_length: "length_t (Remove j r t) = length_t t - 1"
  by (simp add: Remove_def remove_Exec_def remember_Exec_def Let_def)

lemma Remove_done:
  "done_tbl (Remove j r t) =
     (if collection j \<in> resolved t then done_tbl t
      else done_tbl t @ [(collection j, page j, r)])"
  by (simp add: Remove_def remove_Exec_def remember_Exec_def Let_def resolved_def)

lemma Add_done: "done_tbl (Add x t) = done_tbl t"
  by (simp add: Add_unfold add_Exec_def)

lemma Add_page:
  "map_of (jobs_tbl t) name = Some p \<Longrightarrow> map_of (jobs_tbl (Add x t)) name = Some p"
  by (simp add: Add_unfold add_Exec_def map_add_Some_iff)

lemma Increment_done: "done_tbl (Increment x t) = done_tbl t"
  by (simp add: Increment_def increment_Exec_def)

lemma map_of_bump:
  "map_of xs name = Some p \<Longrightarrow>
   map_of (map (\<lambda>(n, p). if n = name then (n, p + 1) else (n, p)) xs) name = Some (p + (1::int))"
  by (induction xs) (auto split: if_splits)

lemma Increment_page:
  "map_of (jobs_tbl t) name = Some p \<Longrightarrow>
   map_of (jobs_tbl (Increment name t)) name = Some (p + 1)"
  by (simp add: Increment_def increment_Exec_def map_of_bump)

lemma filter_bump:
  "filter (\<lambda>(n, p). n \<noteq> name)
     (map (\<lambda>(n, p). if n = name then (n, p + (1::int)) else (n, p)) xs)
   = filter (\<lambda>(n, p). n \<noteq> name) xs"
  by (induction xs) auto

subsection \<open>\<open>Add\<close> and the done log\<close>

text \<open>
  Claim C1.  For a collection name that has a DoneRecord, \<open>Add\<close> should leave the ledger
  unchanged.  The code does not: the done lookup is run without its argument and always
  fails, so \<open>Add\<close> inserts a job and increments the count.  In the ledger reached from
  the empty one by adding \<open>a\<close> and retiring it, \<open>a\<close> has a DoneRecord and no job and
  \<open>Len\<close> is 0; a further \<open>Add a\<close> makes \<open>a\<close> an active job at page 1 and raises \<open>Len\<close>
  to 1.
\<close>

theorem Add_done_name_not_noop:
  "''a'' \<in> resolved ledger_retired \<and> jobs_tbl ledger_retired = [] \<and> Len ledger_retired = 0
   \<and> jobs_tbl (Add ''a'' ledger_retired) = [(''a'', 1)]
   \<and> Len (Add ''a'' ledger_retired) = 1
   \<and> done_tbl (Add ''a'' ledger_retired) = done_tbl ledger_retired"
  by (simp add: ledger_retired_eq ledger_eval)

text \<open>
  Claim C2.  In every ledger reached from the empty one by \<open>Add\<close>, \<open>Increment\<close> and
  \<open>Remove\<close>, a name should be an active job or have a DoneRecord, never both.  The code
  reaches a ledger that breaks this: add \<open>a\<close>, retire it, add it again.
\<close>

theorem done_name_active_again:
  "ledger_readded
     = run_ops [OpAdd ''a'', OpRemove \<lparr>collection = ''a'', page = 1\<rparr> '''', OpAdd ''a'']
         empty_ledger
   \<and> ''a'' \<in> active ledger_readded \<and> ''a'' \<in> resolved ledger_readded"
proof -
  have "''a'' \<in> active ledger_readded \<and> ''a'' \<in> resolved ledger_readded"
    by (simp add: ledger_readded_eq active_def resolved_def)
  then show ?thesis
    unfolding ledger_readded_def by simp
qed

text \<open>
  Claim C7.  A second \<open>Add\<close> of a name that is an active job should change nothing, so
  that \<open>Len\<close> stays the number of active jobs.  The insert is indeed skipped and the page
  kept, but \<open>length\<close> is incremented all the same: after adding \<open>a\<close> twice there is one
  job and \<open>Len\<close> is 2.
\<close>

theorem duplicate_Add_counts_twice:
  "jobs_tbl ledger_one = [(''a'', 1)] \<and> Len ledger_one = 1
   \<and> jobs_tbl (Add ''a'' ledger_one) = [(''a'', 1)]
   \<and> Len (Add ''a'' ledger_one) = 2
   \<and> int (length (jobs_tbl (Add ''a'' ledger_one))) = 1"
  by (simp add: ledger_one_eq ledger_eval)

subsection \<open>\<open>Next\<close>\<close>

lemma Next_empty: "jobs_tbl t = [] \<Longrightarrow> Next t = Inl ErrNoRows"
  by (simp add: Next_def next_QueryRow_def)

lemma sort_key_head_min:
  assumes "sort_key f xs = y # ys" and "x \<in> set xs"
  shows "f y \<le> f x"
proof -
  have s: "sorted (map f (y # ys))"
    using sorted_sort_key [of f xs] assms(1) by simp
  have "x \<in> set (y # ys)"
    using assms set_sort [of f xs] by simp
  then show ?thesis using s by auto
qed

lemma sort_key_head_mem:
  assumes "sort_key f xs = y # ys"
  shows "y \<in> set xs"
proof -
  have "y \<in> set (sort_key f xs)" using assms by simp
  then show ?thesis by simp
qed

lemma sort_key_Nil_iff: "sort_key f xs = [] \<longleftrightarrow> xs = []"
  by (metis length_sort length_0_conv)

lemma Next_mem:
  assumes "Next t = Inr job"
  shows "(collection job, page job) \<in> set (jobs_tbl t)"
proof -
  from assms obtain n p rest
    where s: "sort_key snd (jobs_tbl t) = (n, p) # rest"
      and j: "job = \<lparr>collection = n, page = p\<rparr>"
    by (auto simp: Next_def next_QueryRow_def split: list.splits sum.splits)
  have "(n, p) \<in> set (jobs_tbl t)" using sort_key_head_mem [OF s] .
  then show ?thesis using j by simp
qed

lemma Next_page:
  "Next t = Inr job \<Longrightarrow> distinct (map fst (jobs_tbl t)) \<Longrightarrow>
   map_of (jobs_tbl t) (collection job) = Some (page job)"
  using Next_mem [of t job] by simp

lemma Next_ledger_one: "Next ledger_one = Inr \<lparr>collection = ''a'', page = 1\<rparr>"
  by (simp add: ledger_one_eq Next_def next_QueryRow_def)

lemma Next_ledger_readded: "Next ledger_readded = Inr \<lparr>collection = ''a'', page = 1\<rparr>"
  by (simp add: ledger_readded_eq Next_def next_QueryRow_def)

text \<open>
  Claim C5.  On a ledger with at least one job, \<open>Next\<close> returns a job of the table whose
  page is the least of all pages; on a ledger without jobs it ends the process with the
  error of the empty query.
\<close>

theorem Next_minimum_page:
  "(jobs_tbl t \<noteq> [] \<longrightarrow>
      (\<exists>job. Next t = Inr job
          \<and> (collection job, page job) \<in> set (jobs_tbl t)
          \<and> (\<forall>(n, p) \<in> set (jobs_tbl t). page job \<le> p)))
   \<and> (jobs_tbl t = [] \<longrightarrow> Next t = Inl ErrNoRows)"
proof (intro conjI impI)
  assume ne: "jobs_tbl t \<noteq> []"
  then obtain n p rest where s: "sort_key snd (jobs_tbl t) = (n, p) # rest"
    using sort_key_Nil_iff [of snd "jobs_tbl t"]
    by (cases "sort_key snd (jobs_tbl t)") auto
  have nx: "Next t = Inr \<lparr>collection = n, page = p\<rparr>"
    by (simp add: Next_def next_QueryRow_def s)
  have mem: "(n, p) \<in> set (jobs_tbl t)"
    using sort_key_head_mem [OF s] .
  have mn: "\<forall>(n', p') \<in> set (jobs_tbl t). p \<le> p'"
    using sort_key_head_min [OF s] by fastforce
  show "\<exists>job. Next t = Inr job
          \<and> (collection job, page job) \<in> set (jobs_tbl t)
          \<and> (\<forall>(n, p) \<in> set (jobs_tbl t). page job \<le> p)"
    using nx mem mn by auto
next
  assume "jobs_tbl t = []"
  then show "Next t = Inl ErrNoRows" by (rule Next_empty)
qed

text \<open>With the jobs \<open>A:3\<close>, \<open>B:1\<close>, \<open>C:1\<close> the job returned is \<open>B\<close> or \<open>C\<close>, never \<open>A\<close>.\<close>

theorem Next_minimum_page_witness:
  "jobs_tbl ledger_ABC \<noteq> []
   \<and> (\<exists>job. Next ledger_ABC = Inr job \<and> page job = 1
         \<and> (collection job = ''B'' \<or> collection job = ''C'') \<and> collection job \<noteq> ''A'')"
proof -
  have ne: "jobs_tbl ledger_ABC \<noteq> []" by (simp add: ledger_ABC_def)
  from Next_minimum_page [of ledger_ABC] ne
  obtain job where j: "Next ledger_ABC = Inr job"
      "(collection job, page job) \<in> set (jobs_tbl ledger_ABC)"
      "\<forall>(n, p) \<in> set (jobs_tbl ledger_ABC). page job \<le> p"
    by blast
  from j(3) have "page job \<le> 1" by (simp add: ledger_ABC_def)
  with j(2) have "page job = 1 \<and> (collection job = ''B'' \<or> collection job = ''C'')"
    by (auto simp: ledger_ABC_def)
  with j(1) ne show ?thesis by auto
qed

subsection \<open>\<open>Remove\<close>\<close>

text \<open>
  Claim C8, as the code has it.  \<open>Remove\<close> of an active job deletes the job and decrements
  \<open>length\<close> (a 64-bit subtraction).  It appends the DoneRecord with the job's page and
  the reason when the collection has no DoneRecord yet; when it has one, the insert is
  refused, the failure is only logged and the done log stays as it was.  The done log
  never gets two records for one name.
\<close>

theorem Remove_retires:
  assumes "collection j \<in> active t"
  shows "collection j \<notin> active (Remove j r t)
    \<and> jobs_tbl (Remove j r t) = filter (\<lambda>(n, p). n \<noteq> collection j) (jobs_tbl t)
    \<and> length_t (Remove j r t) = length_t t - 1
    \<and> (collection j \<notin> resolved t \<longrightarrow>
          done_tbl (Remove j r t) = done_tbl t @ [(collection j, page j, r)])
    \<and> (collection j \<in> resolved t \<longrightarrow> done_tbl (Remove j r t) = done_tbl t)
    \<and> (distinct (map fst (done_tbl t)) \<longrightarrow> distinct (map fst (done_tbl (Remove j r t))))"
  by (auto simp: Remove_jobs Remove_length Remove_done active_def resolved_def)

theorem Remove_retires_witness:
  "collection \<lparr>collection = ''a'', page = 1\<rparr> \<in> active ledger_one
   \<and> collection \<lparr>collection = ''a'', page = 1\<rparr> \<notin> resolved ledger_one
   \<and> distinct (map fst (done_tbl ledger_one))
   \<and> Remove \<lparr>collection = ''a'', page = 1\<rparr> ''x'' ledger_one
       = \<lparr>jobs_tbl = [], done_tbl = [(''a'', 1, ''x'')], length_t = 0\<rparr>
   \<and> collection \<lparr>collection = ''a'', page = 1\<rparr> \<in> resolved ledger_readded
   \<and> collection \<lparr>collection = ''a'', page = 1\<rparr> \<in> active ledger_readded
   \<and> done_tbl (Remove \<lparr>collection = ''a'', page = 1\<rparr> ''x'' ledger_readded)
       = done_tbl ledger_readded"
proof -
  have a: "collection \<lparr>collection = ''a'', page = 1\<rparr> \<in> active ledger_one"
    by (simp add: ledger_one_eq active_def)
  have b: "collection \<lparr>collection = ''a'', page = 1\<rparr> \<in> active ledger_readded"
    by (simp add: ledger_readded_eq active_def)
  have c: "collection \<lparr>collection = ''a'', page = 1\<rparr> \<notin> resolved ledger_one"
    by (simp add: ledger_one_eq resolved_def)
  have d: "collection \<lparr>collection = ''a'', page = 1\<rparr> \<in> resolved ledger_readded"
    by (simp add: ledger_readded_eq resolved_def)
  have e: "distinct (map fst (done_tbl ledger_one))"
    by (simp add: ledger_one_eq)
  note r1 = Remove_retires [OF a, of "''x''"]
  note r2 = Remove_retires [OF b, of "''x''"]
  have "Remove \<lparr>collection = ''a'', page = 1\<rparr> ''x'' ledger_one
       = \<lparr>jobs_tbl = [], done_tbl = [(''a'', 1, ''x'')], length_t = 0\<rparr>"
    using r1 c by (simp add: ledger_one_eq Tasks.equality)
  moreover have "done_tbl (Remove \<lparr>collection = ''a'', page = 1\<rparr> ''x'' ledger_readded)
       = done_tbl ledger_readded"
    using r2 d by blast
  ultimately show ?thesis using a b c d e by blast
qed

text \<open>
  Claim C8 as stated fails: \<open>a\<close> is an active job of \<open>ledger_readded\<close> and already has a
  DoneRecord; \<open>Remove\<close> with reason \<open>x\<close> deletes the job and appends nothing, so the job is
  retired without a DoneRecord carrying its reason.
\<close>

theorem Remove_done_name_appends_nothing:
  "''a'' \<in> active ledger_readded
   \<and> jobs_tbl (Remove \<lparr>collection = ''a'', page = 1\<rparr> ''x'' ledger_readded) = []
   \<and> done_tbl (Remove \<lparr>collection = ''a'', page = 1\<rparr> ''x'' ledger_readded)
       = [(''a'', 1, '''')]
   \<and> (''a'', 1, ''x'')
       \<notin> set (done_tbl (Remove \<lparr>collection = ''a'', page = 1\<rparr> ''x'' ledger_readded))"
  by (simp add: ledger_readded_eq ledger_eval)

section \<open>Properties of the crawl loop\<close>

lemma items_loop_done: "done_tbl (tasks (items_loop client co st)) = done_tbl (tasks st)"
  by (induction client co st rule: items_loop.induct)
     (auto simp: Add_done split: prod.splits sum.splits)

lemma items_loop_page:
  "map_of (jobs_tbl (tasks st)) name = Some p \<Longrightarrow>
   map_of (jobs_tbl (tasks (items_loop client co st))) name = Some p"
  by (induction client co st rule: items_loop.induct)
     (auto simp: Add_page split: prod.splits sum.splits)

lemma page_incr_1: "page_incr 1 = 2"
  by (simp add: page_incr_def)

text \<open>Within the 64-bit range \<open>job.page++\<close> adds one.\<close>

lemma page_incr_eq: "- (2 ^ 63) \<le> p \<Longrightarrow> p < 2 ^ 63 - 1 \<Longrightarrow> page_incr p = p + 1"
proof -
  assume lo: "- (2 ^ 63) \<le> p" and hi: "p < 2 ^ 63 - 1"
  have "(word_of_int p + 1 :: 64 word) = word_of_int (p + 1)" by simp
  then have "page_incr p = signed_take_bit 63 (p + 1)"
    unfolding page_incr_def by (simp only: sint_sbintrunc') simp
  also have "\<dots> = p + 1"
    using lo hi by (intro signed_take_bit_int_eq_self) auto
  finally show ?thesis .
qed

subsection \<open>The retry\<close>

text \<open>
  Claim C4, as the code has it.  The first fetch of the job's page fails, the fetch of the
  next page succeeds and returns at least one entry.  Then the pass ends with the job's
  stored page two above what it was, and with the done log as it was.  (\<open>jobs.name\<close> is
  the primary key of the table, so the names of the job rows are distinct.)
\<close>

theorem retry_nonempty_advances_two:
  assumes key: "distinct (map fst (jobs_tbl (tasks st)))"
      and nx: "Next (tasks st) = Inr job"
      and first: "NewCollectionSubset client (requests st) (collection job) batchSize (page job)
                    = (Inl err, n)"
      and retry: "NewCollectionSubset client n (collection job) batchSize (page_incr (page job))
                    = (Inr co, n')"
      and ne: "co \<noteq> []"
  shows "\<exists>st'. iteration client st = Inr st'
           \<and> map_of (jobs_tbl (tasks st')) (collection job) = Some (page job + 2)
           \<and> done_tbl (tasks st') = done_tbl (tasks st)"
proof -
  let ?name = "collection job"
  let ?st1 = "st\<lparr>tasks := Increment ?name (tasks st), requests := n'\<rparr>"
  let ?st2 = "items_loop client co ?st1"
  let ?st3 = "?st2\<lparr>tasks := Increment ?name (tasks ?st2)\<rparr>"
  have it: "iteration client st = Inr ?st3"
    using nx first retry ne by (simp add: iteration_def after_fetch_def Let_def)
  have p0: "map_of (jobs_tbl (tasks st)) ?name = Some (page job)"
    using Next_page [OF nx key] .
  have p1: "map_of (jobs_tbl (tasks ?st1)) ?name = Some (page job + 1)"
    using Increment_page [OF p0] by simp
  have p2: "map_of (jobs_tbl (tasks ?st2)) ?name = Some (page job + 1)"
    using items_loop_page [OF p1] .
  have p3: "map_of (jobs_tbl (tasks ?st3)) ?name = Some (page job + 2)"
    using Increment_page [OF p2] by simp
  have d: "done_tbl (tasks ?st3) = done_tbl (tasks st)"
    by (simp add: Increment_done items_loop_done)
  show ?thesis using it p3 d by blast
qed

theorem retry_nonempty_advances_two_witness:
  "distinct (map fst (jobs_tbl (tasks state_one)))
   \<and> Next (tasks state_one) = Inr \<lparr>collection = ''a'', page = 1\<rparr>
   \<and> NewCollectionSubset client_retry_leaf (requests state_one) ''a'' batchSize 1
        = (Inl (Remote ''timeout''), 1)
   \<and> NewCollectionSubset client_retry_leaf 1 ''a'' batchSize (page_incr 1) = (Inr [''leaf''], 2)
   \<and> [''leaf''] \<noteq> []
   \<and> (\<exists>st'. iteration client_retry_leaf state_one = Inr st'
           \<and> map_of (jobs_tbl (tasks st')) ''a'' = Some 3
           \<and> done_tbl (tasks st') = [])"
proof -
  have key: "distinct (map fst (jobs_tbl (tasks state_one)))"
    by (simp add: state_one_def ledger_one_eq)
  have nx: "Next (tasks state_one) = Inr \<lparr>collection = ''a'', page = 1\<rparr>"
    by (simp add: state_one_def Next_ledger_one)
  have first: "NewCollectionSubset client_retry_leaf (requests state_one)
                 (collection \<lparr>collection = ''a'', page = 1\<rparr>) batchSize
                 (page \<lparr>collection = ''a'', page = 1\<rparr>) = (Inl (Remote ''timeout''), 1)"
    by (simp add: NewCollectionSubset_def client_retry_leaf_def state_one_def batchSize_def)
  have retry: "NewCollectionSubset client_retry_leaf 1
                 (collection \<lparr>collection = ''a'', page = 1\<rparr>) batchSize
                 (page_incr (page \<lparr>collection = ''a'', page = 1\<rparr>)) = (Inr [''leaf''], 2)"
    by (simp add: NewCollectionSubset_def client_retry_leaf_def batchSize_def page_incr_1)
  have ne: "[''leaf''] \<noteq> []" by simp
  have d: "done_tbl (tasks state_one) = []"
    by (simp add: state_one_def ledger_one_eq)
  from retry_nonempty_advances_two [OF key nx first retry ne] d
  have "\<exists>st'. iteration client_retry_leaf state_one = Inr st'
           \<and> map_of (jobs_tbl (tasks st')) ''a'' = Some 3
           \<and> done_tbl (tasks st') = []"
    by simp
  then show ?thesis using key nx first retry by simp
qed

text \<open>
  Claim C4 as stated fails when the page fetched by the retry is empty: the job \<open>a\<close> at
  page 1 is then retired, so no stored page is left to have advanced, and the DoneRecord
  \<open>(a, 2, "")\<close> is written.
\<close>

theorem retry_with_empty_page_writes_done:
  "Next (tasks state_one) = Inr \<lparr>collection = ''a'', page = 1\<rparr>
   \<and> NewCollectionSubset client_retry_empty 0 ''a'' batchSize 1 = (Inl (Remote ''timeout''), 1)
   \<and> NewCollectionSubset client_retry_empty 1 ''a'' batchSize (page_incr 1) = (Inr [], 2)
   \<and> iteration client_retry_empty state_one
       = Inr \<lparr>tasks = \<lparr>jobs_tbl = [], done_tbl = [(''a'', 2, '''')], length_t = 0\<rparr>,
              storage = empty_store, requests = 2\<rparr>"
proof -
  have nx: "Next (tasks state_one) = Inr \<lparr>collection = ''a'', page = 1\<rparr>"
    by (simp add: state_one_def Next_ledger_one)
  have first: "NewCollectionSubset client_retry_empty 0 ''a'' batchSize 1
                 = (Inl (Remote ''timeout''), 1)"
    by (simp add: NewCollectionSubset_def client_retry_empty_def batchSize_def)
  have retry: "NewCollectionSubset client_retry_empty 1 ''a'' batchSize (page_incr 1)
                 = (Inr [], 2)"
    by (simp add: NewCollectionSubset_def client_retry_empty_def batchSize_def page_incr_1)
  have rq: "requests state_one = 0" by (simp add: state_one_def)
  have rm: "Remove \<lparr>collection = ''a'', page = page_incr 1\<rparr> ''''
              (Increment ''a'' (tasks state_one))
              = \<lparr>jobs_tbl = [], done_tbl = [(''a'', 2, '''')], length_t = 0\<rparr>"
    by (simp add: state_one_def ledger_one_eq Remove_def remove_Exec_def remember_Exec_def
        Increment_def increment_Exec_def page_incr_1)
  have "iteration client_retry_empty state_one
       = Inr \<lparr>tasks = \<lparr>jobs_tbl = [], done_tbl = [(''a'', 2, '''')], length_t = 0\<rparr>,
              storage = empty_store, requests = 2\<rparr>"
    using nx rq first retry rm
    by (simp add: iteration_def after_fetch_def Let_def) (simp add: state_one_def)
  then show ?thesis using nx first retry by simp
qed

subsection \<open>The empty page\<close>

text \<open>
  Claim C6, as the code has it.  The page the pass works on is empty, and the job's
  collection has no DoneRecord yet.  Then the pass leaves the state as it was but for
  this: the job's row is gone, one DoneRecord with the empty reason is appended, \<open>length\<close>
  is one less, and the request count has moved on.  The store is untouched.  The page is
  either the one fetched first or, after a failed first fetch, the one fetched by the
  retry; the DoneRecord carries the page that was fetched.
\<close>

theorem empty_page_retires_job:
  assumes nx: "Next (tasks st) = Inr job"
      and fresh: "collection job \<notin> resolved (tasks st)"
  shows "(NewCollectionSubset client (requests st) (collection job) batchSize (page job)
            = (Inr [], n) \<longrightarrow>
          iteration client st =
            Inr (st\<lparr>tasks := (tasks st)
                      \<lparr>jobs_tbl := filter (\<lambda>(c, p). c \<noteq> collection job) (jobs_tbl (tasks st)),
                       done_tbl := done_tbl (tasks st) @ [(collection job, page job, '''')],
                       length_t := length_t (tasks st) - 1\<rparr>,
                    requests := n\<rparr>))
       \<and> (NewCollectionSubset client (requests st) (collection job) batchSize (page job)
            = (Inl err, n) \<and>
          NewCollectionSubset client n (collection job) batchSize (page_incr (page job))
            = (Inr [], n') \<longrightarrow>
          iteration client st =
            Inr (st\<lparr>tasks := (tasks st)
                      \<lparr>jobs_tbl := filter (\<lambda>(c, p). c \<noteq> collection job) (jobs_tbl (tasks st)),
                       done_tbl := done_tbl (tasks st)
                                     @ [(collection job, page_incr (page job), '''')],
                       length_t := length_t (tasks st) - 1\<rparr>,
                    requests := n'\<rparr>))"
proof (intro conjI impI)
  assume f: "NewCollectionSubset client (requests st) (collection job) batchSize (page job)
               = (Inr [], n)"
  have "Remove job '''' (tasks st) = (tasks st)
          \<lparr>jobs_tbl := filter (\<lambda>(c, p). c \<noteq> collection job) (jobs_tbl (tasks st)),
           done_tbl := done_tbl (tasks st) @ [(collection job, page job, '''')],
           length_t := length_t (tasks st) - 1\<rparr>"
    using fresh by (simp add: Remove_def remove_Exec_def remember_Exec_def resolved_def Let_def)
  then show "iteration client st =
            Inr (st\<lparr>tasks := (tasks st)
                      \<lparr>jobs_tbl := filter (\<lambda>(c, p). c \<noteq> collection job) (jobs_tbl (tasks st)),
                       done_tbl := done_tbl (tasks st) @ [(collection job, page job, '''')],
                       length_t := length_t (tasks st) - 1\<rparr>,
                    requests := n\<rparr>)"
    using nx f by (simp add: iteration_def after_fetch_def)
next
  assume f: "NewCollectionSubset client (requests st) (collection job) batchSize (page job)
            = (Inl err, n) \<and>
          NewCollectionSubset client n (collection job) batchSize (page_incr (page job))
            = (Inr [], n')"
  let ?job' = "job\<lparr>page := page_incr (page job)\<rparr>"
  have "Remove ?job' '''' (Increment (collection job) (tasks st)) = (tasks st)
          \<lparr>jobs_tbl := filter (\<lambda>(c, p). c \<noteq> collection job) (jobs_tbl (tasks st)),
           done_tbl := done_tbl (tasks st) @ [(collection job, page_incr (page job), '''')],
           length_t := length_t (tasks st) - 1\<rparr>"
    using fresh
    by (simp add: Remove_def remove_Exec_def remember_Exec_def resolved_def Let_def
        Increment_def increment_Exec_def filter_bump)
  then show "iteration client st =
            Inr (st\<lparr>tasks := (tasks st)
                      \<lparr>jobs_tbl := filter (\<lambda>(c, p). c \<noteq> collection job) (jobs_tbl (tasks st)),
                       done_tbl := done_tbl (tasks st)
                                     @ [(collection job, page_incr (page job), '''')],
                       length_t := length_t (tasks st) - 1\<rparr>,
                    requests := n'\<rparr>)"
    using nx f by (simp add: iteration_def after_fetch_def Let_def)
qed

theorem empty_page_retires_job_witness:
  "Next (tasks state_one) = Inr \<lparr>collection = ''a'', page = 1\<rparr>
   \<and> ''a'' \<notin> resolved (tasks state_one)
   \<and> NewCollectionSubset client_empty (requests state_one) ''a'' batchSize 1 = (Inr [], 1)
   \<and> iteration client_empty state_one
       = Inr \<lparr>tasks = \<lparr>jobs_tbl = [], done_tbl = [(''a'', 1, '''')], length_t = 0\<rparr>,
              storage = empty_store, requests = 1\<rparr>
   \<and> NewCollectionSubset client_retry_empty (requests state_one) ''a'' batchSize 1
       = (Inl (Remote ''timeout''), 1)
   \<and> NewCollectionSubset client_retry_empty 1 ''a'' batchSize (page_incr 1) = (Inr [], 2)
   \<and> iteration client_retry_empty state_one
       = Inr \<lparr>tasks = \<lparr>jobs_tbl = [], done_tbl = [(''a'', 2, '''')], length_t = 0\<rparr>,
              storage = empty_store, requests = 2\<rparr>"
proof -
  let ?job = "\<lparr>collection = ''a'', page = 1\<rparr>"
  have nx: "Next (tasks state_one) = Inr ?job"
    by (simp add: state_one_def Next_ledger_one)
  have fresh: "collection ?job \<notin> resolved (tasks state_one)"
    by (simp add: state_one_def ledger_one_eq resolved_def)
  have f1: "NewCollectionSubset client_empty (requests state_one) (collection ?job) batchSize
              (page ?job) = (Inr [], 1)"
    by (simp add: NewCollectionSubset_def client_empty_def batchSize_def state_one_def)
  have f2: "NewCollectionSubset client_retry_empty (requests state_one) (collection ?job)
              batchSize (page ?job) = (Inl (Remote ''timeout''), 1)"
    by (simp add: NewCollectionSubset_def client_retry_empty_def batchSize_def state_one_def)
  have f3: "NewCollectionSubset client_retry_empty 1 (collection ?job) batchSize
              (page_incr (page ?job)) = (Inr [], 2)"
    by (simp add: NewCollectionSubset_def client_retry_empty_def batchSize_def page_incr_1)
  have r1: "iteration client_empty state_one
       = Inr \<lparr>tasks = \<lparr>jobs_tbl = [], done_tbl = [(''a'', 1, '''')], length_t = 0\<rparr>,
              storage = empty_store, requests = 1\<rparr>"
    using empty_page_retires_job [OF nx fresh, of client_empty 1] f1
    by (simp add: state_one_def ledger_one_eq)
  have r2: "iteration client_retry_empty state_one
       = Inr \<lparr>tasks = \<lparr>jobs_tbl = [], done_tbl = [(''a'', 2, '''')], length_t = 0\<rparr>,
              storage = empty_store, requests = 2\<rparr>"
    using empty_page_retires_job [OF nx fresh, of client_retry_empty 1 "Remote ''timeout''" 2]
      f2 f3
    by (simp add: state_one_def ledger_one_eq page_incr_1)
  show ?thesis using nx fresh f1 f2 f3 r1 r2 by simp
qed

text \<open>
  Claim C6 as stated fails for a collection that already has a DoneRecord: in
  \<open>ledger_readded\<close> the job \<open>a\<close> is active and \<open>a\<close> has a DoneRecord; its page comes back
  empty, the job is removed, and the done log is left as it was, with no record appended.
\<close>

theorem empty_page_done_name_appends_nothing:
  "Next (tasks state_readded) = Inr \<lparr>collection = ''a'', page = 1\<rparr>
   \<and> NewCollectionSubset client_empty 0 ''a'' batchSize 1 = (Inr [], 1)
   \<and> done_tbl (tasks state_readded) = [(''a'', 1, '''')]
   \<and> iteration client_empty state_readded
       = Inr \<lparr>tasks = \<lparr>jobs_tbl = [], done_tbl = [(''a'', 1, '''')], length_t = 0\<rparr>,
              storage = empty_store, requests = 1\<rparr>"
proof -
  have nx: "Next (tasks state_readded) = Inr \<lparr>collection = ''a'', page = 1\<rparr>"
    by (simp add: state_readded_def Next_ledger_readded)
  have first: "NewCollectionSubset client_empty 0 ''a'' batchSize 1 = (Inr [], 1)"
    by (simp add: NewCollectionSubset_def client_empty_def batchSize_def)
  have rq: "requests state_readded = 0" by (simp add: state_readded_def)
  have d: "done_tbl (tasks state_readded) = [(''a'', 1, '''')]"
    by (simp add: state_readded_def ledger_readded_eq)
  have rm: "Remove \<lparr>collection = ''a'', page = 1\<rparr> '''' (tasks state_readded)
              = \<lparr>jobs_tbl = [], done_tbl = [(''a'', 1, '''')], length_t = 0\<rparr>"
    by (simp add: state_readded_def ledger_readded_eq Remove_def remove_Exec_def
        remember_Exec_def)
  have "iteration client_empty state_readded
       = Inr \<lparr>tasks = \<lparr>jobs_tbl = [], done_tbl = [(''a'', 1, '''')], length_t = 0\<rparr>,
              storage = empty_store, requests = 1\<rparr>"
    using nx rq first rm
    by (simp add: iteration_def after_fetch_def Let_def) (simp add: state_readded_def)
  then show ?thesis using nx first d by simp
qed

section \<open>Properties of the hash store\<close>

subsection \<open>Opening the store\<close>

text \<open>
  Claim C10.  \<open>NewStorage\<close> should open the store at \<open>dbPath\<close>.  The code opens
  \<open>hashes.db\<close> whatever \<open>dbPath\<close> is (\<open>NewTasks\<close>, its sibling, opens \<open>dbPath\<close>): on a disk
  where \<open>other.db\<close> holds an item, \<open>NewStorage\<close> of \<open>other.db\<close> returns the empty tables of
  \<open>hashes.db\<close>.
\<close>

theorem NewStorage_ignores_dbPath:
  "db_name (NewStorage disk_two ''other.db'') = ''hashes.db''
   \<and> archive_items (NewStorage disk_two ''other.db'') = []
   \<and> fst (disk_two ''other.db'') = [(1, ''x'')]
   \<and> NewStorage disk ''other.db'' = NewStorage disk ''hashes.db''"
  by (simp add: NewStorage_def disk_two_def)

subsection \<open>The filter\<close>

lemma hex_length: "hex_DecodeString s = Inr bs \<Longrightarrow> length s = 2 * length bs"
  by (induction s arbitrary: bs rule: hex_DecodeString.induct)
     (auto split: option.splits sum.splits)

text \<open>The checks of the loop body, in the order of the code, amount to \<open>accepted\<close>.\<close>

lemma accepted_iff:
  "accepted item f \<longleftrightarrow>
     Name f \<noteq> ''__ia_thumb.jpg''
     \<and> \<not> (prefix item (Name f) \<and> drop (length item) (Name f) \<in> set generated_suffixes)
     \<and> length (Hash f) = 40
     \<and> (\<exists>bs. hex_DecodeString (Hash f) = Inr bs)"
proof -
  have a: "Name f \<in> (\<lambda>sfx. item @ sfx) ` set generated_suffixes
           \<longleftrightarrow> prefix item (Name f) \<and> drop (length item) (Name f) \<in> set generated_suffixes"
    by (auto simp: prefix_def)
  have b: "(case hex_DecodeString (Hash f) of Inl err \<Rightarrow> False | Inr bs \<Rightarrow> length bs = 20)
           \<longleftrightarrow> length (Hash f) = 40 \<and> (\<exists>bs. hex_DecodeString (Hash f) = Inr bs)"
    by (auto dest: hex_length split: sum.splits)
  show ?thesis unfolding accepted_def a b by blast
qed

lemma insert_file_eq:
  "insert_file item item_id f (s, ins) =
     (if accepted item f
      then (case insHash_Exec (decoded f) item_id s of
              Inl err \<Rightarrow> (s, ins)
            | Inr s' \<Rightarrow> (s', True))
      else (s, ins))"
  by (auto simp: insert_file_def accepted_iff decoded_def generated_suffixes_def Let_def
           split: sum.splits)

lemma insert_files_append:
  "insert_files item item_id (fs @ gs) st
     = insert_files item item_id gs (insert_files item item_id fs st)"
  by (induction fs arbitrary: st) auto

text \<open>
  Claim C9.  For one file, the loop body inserts a hash row exactly when the file is
  accepted (not the thumbnail, not the item name plus a generated suffix, a hash of 20
  bytes of valid hexadecimal) and the insert into the store succeeds; in every other case
  it leaves the store and the flag as they were.  And a file is handled in the state its
  predecessors left, whatever happened to them, and the files after it are handled in
  turn: no skip ends the loop.
\<close>

theorem insert_file_filter:
  "insert_file item item_id f (s, ins) =
     (if accepted item f
      then (case insHash_Exec (decoded f) item_id s of
              Inl err \<Rightarrow> (s, ins)
            | Inr s' \<Rightarrow> (s', True))
      else (s, ins))
   \<and> insert_files item item_id (fs @ f # gs) (s, ins) =
       insert_files item item_id gs
         (insert_file item item_id f (insert_files item item_id fs (s, ins)))"
  by (simp add: insert_file_eq insert_files_append)

lemma empty_store_eq:
  "empty_store = \<lparr>db_name = ''hashes.db'', archive_items = [], seq = 0, hashes = []\<rparr>"
  by (simp add: empty_store_def NewStorage_def)

lemma decoded_data_bin:
  "hex_DecodeString (Hash data_bin)
     = Inr [0, 17, 34, 51, 68, 85, 102, 119, 136, 153, 170, 187, 204, 221, 238, 255,
            1, 35, 69, 103]"
  by (simp add: data_bin_def fromHexChar_def)

lemma decoded_more_bin:
  "hex_DecodeString (Hash more_bin)
     = Inr [255, 255, 255, 255, 255, 255, 255, 255, 255, 255, 255, 255, 255, 255, 255, 255,
            255, 255, 255, 255]"
  by (simp add: more_bin_def fromHexChar_def)

lemma accepted_data_bin: "accepted ''x'' data_bin"
  by (simp add: accepted_def decoded_data_bin generated_suffixes_def) (simp add: data_bin_def)

lemma accepted_more_bin: "accepted ''x'' more_bin"
  by (simp add: accepted_def decoded_more_bin generated_suffixes_def) (simp add: more_bin_def)

lemma rejected_thumb: "\<not> accepted item thumb"
  by (simp add: accepted_def thumb_def)

lemma rejected_x_meta: "\<not> accepted ''x'' x_meta"
  by (simp add: accepted_def x_meta_def generated_suffixes_def)

text \<open>
  The item \<open>x\<close> with the thumbnail, \<open>x_meta.xml\<close> and \<open>data.bin\<close>: exactly one hash row is
  inserted, the one of \<open>data.bin\<close>.
\<close>

theorem insert_file_filter_witness:
  "\<not> accepted ''x'' thumb \<and> \<not> accepted ''x'' x_meta \<and> accepted ''x'' data_bin
   \<and> insert_file ''x'' 1 thumb (empty_store, False) = (empty_store, False)
   \<and> insert_file ''x'' 1 x_meta (empty_store, False) = (empty_store, False)
   \<and> insert_files ''x'' 1 [thumb, x_meta, data_bin] (empty_store, False)
       = (empty_store\<lparr>hashes := [(decoded data_bin, 1)]\<rparr>, True)"
proof -
  have t: "insert_file ''x'' 1 thumb (empty_store, False) = (empty_store, False)"
    using insert_file_filter [of "''x''" 1 thumb empty_store False] rejected_thumb by simp
  have m: "insert_file ''x'' 1 x_meta (empty_store, False) = (empty_store, False)"
    using insert_file_filter [of "''x''" 1 x_meta empty_store False] rejected_x_meta by simp
  have d: "insert_file ''x'' 1 data_bin (empty_store, False)
             = (empty_store\<lparr>hashes := [(decoded data_bin, 1)]\<rparr>, True)"
    using insert_file_filter [of "''x''" 1 data_bin empty_store False] accepted_data_bin
    by (simp add: insHash_Exec_def empty_store_eq)
  have "insert_files ''x'' 1 ([thumb, x_meta] @ data_bin # []) (empty_store, False)
          = insert_files ''x'' 1 []
              (insert_file ''x'' 1 data_bin
                 (insert_files ''x'' 1 [thumb, x_meta] (empty_store, False)))"
    using insert_file_filter [of "''x''" 1 data_bin empty_store False "[thumb, x_meta]" "[]"]
    by blast
  then have "insert_files ''x'' 1 [thumb, x_meta, data_bin] (empty_store, False)
       = (empty_store\<lparr>hashes := [(decoded data_bin, 1)]\<rparr>, True)"
    using t m d by simp
  then show ?thesis using t m rejected_thumb rejected_x_meta accepted_data_bin by simp
qed

subsection \<open>When \<open>NewEntry\<close> fails\<close>

lemma insert_files_flag:
  "snd (insert_files item item_id fs (s, b)) \<longleftrightarrow>
     b \<or> (\<exists>f \<in> set fs. accepted item f \<and> decoded f \<notin> fst ` set (hashes s))"
proof (induction fs arbitrary: s b)
  case Nil
  then show ?case by simp
next
  case (Cons f fs)
  show ?case
  proof (cases "accepted item f \<and> decoded f \<notin> fst ` set (hashes s)")
    case True
    then have "insert_file item item_id f (s, b)
                 = (s\<lparr>hashes := hashes s @ [(decoded f, item_id)]\<rparr>, True)"
      by (simp add: insert_file_eq insHash_Exec_def)
    then show ?thesis using True Cons.IH by auto
  next
    case False
    then have "insert_file item item_id f (s, b) = (s, b)"
      by (auto simp: insert_file_eq insHash_Exec_def)
    then show ?thesis using False Cons.IH by auto
  qed
qed

lemma insName_hashes: "insName_Exec item s = Inr (s1, i) \<Longrightarrow> hashes s1 = hashes s"
  by (auto simp: insName_Exec_def Let_def split: if_splits)

lemma insName_ok_iff:
  "(\<exists>r. insName_Exec item s = Inr r) \<longleftrightarrow> item \<notin> snd ` set (archive_items s)"
  by (auto simp: insName_Exec_def Let_def)

lemma store_x_eq:
  "store_x = \<lparr>db_name = ''hashes.db'', archive_items = [(1, ''x'')], seq = 1,
              hashes = [([0, 17, 34, 51, 68, 85, 102, 119, 136, 153, 170, 187, 204, 221, 238,
                          255, 1, 35, 69, 103], 1)]\<rparr>"
  by (simp add: store_x_def NewEntry_def Begin_def Commit_def insName_Exec_def empty_store_eq
      insert_file_eq rejected_thumb rejected_x_meta accepted_data_bin Let_def
      insHash_Exec_def decoded_def decoded_data_bin)

text \<open>
  Claim C3, as the code has it.  \<open>NewEntry\<close> fails exactly when the file list is empty,
  or the item name is already in \<open>archive_items\<close> (the insert of the item row is refused),
  or no file gives a hash row: each file is rejected by the filter or its hash is
  already in the store.  With an empty list the error is \<open>no files\<close> and the store is
  untouched; with a recorded name the error is the one of the refused insert and the
  store is untouched; with no hash row the error is \<open>no valid files\<close>.  An item whose only
  file is the thumbnail fails.  Nothing is said here about the rows left behind after
  \<open>no valid files\<close>.
\<close>

theorem NewEntry_fails_iff:
  "(fst (NewEntry im item s) \<noteq> None \<longleftrightarrow>
      Files im = []
      \<or> item \<in> snd ` set (archive_items s)
      \<or> (\<forall>f \<in> set (Files im). \<not> accepted item f \<or> decoded f \<in> fst ` set (hashes s)))
   \<and> (Files im = [] \<longrightarrow> NewEntry im item s = (Some (Errorf ''no files''), s))
   \<and> (Files im \<noteq> [] \<and> item \<in> snd ` set (archive_items s) \<longrightarrow>
        NewEntry im item s
          = (Some (ErrConstraint ''UNIQUE constraint failed: archive_items.name''), s))
   \<and> (Files im \<noteq> [] \<and> item \<notin> snd ` set (archive_items s)
        \<and> (\<forall>f \<in> set (Files im). \<not> accepted item f \<or> decoded f \<in> fst ` set (hashes s)) \<longrightarrow>
        fst (NewEntry im item s) = Some (Errorf ''no valid files''))
   \<and> ((\<exists>f. Files im = [f] \<and> Name f = ''__ia_thumb.jpg'') \<longrightarrow>
        fst (NewEntry im item s) \<noteq> None)"
proof -
  have empty: "Files im = [] \<Longrightarrow> NewEntry im item s = (Some (Errorf ''no files''), s)"
    by (simp add: NewEntry_def)
  have dup: "Files im \<noteq> [] \<Longrightarrow> item \<in> snd ` set (archive_items s) \<Longrightarrow>
        NewEntry im item s
          = (Some (ErrConstraint ''UNIQUE constraint failed: archive_items.name''), s)"
    by (simp add: NewEntry_def insName_Exec_def Rollback_def Let_def)
  have loop: "fst (NewEntry im item s) =
        (if \<forall>f \<in> set (Files im). \<not> accepted item f \<or> decoded f \<in> fst ` set (hashes s)
         then Some (Errorf ''no valid files'') else None)"
    if ne: "Files im \<noteq> []" and new: "item \<notin> snd ` set (archive_items s)"
  proof -
    from new obtain s1 i where ins: "insName_Exec item s = Inr (s1, i)"
      using insName_ok_iff [of item s] by auto
    have h: "hashes s1 = hashes s"
      using insName_hashes [OF ins] .
    obtain s2 b where lp: "insert_files item i (Files im) (s1, False) = (s2, b)"
      by (cases "insert_files item i (Files im) (s1, False)") auto
    have b: "b \<longleftrightarrow> (\<exists>f \<in> set (Files im). accepted item f \<and> decoded f \<notin> fst ` set (hashes s))"
      using insert_files_flag [of item i "Files im" s1 False] lp h by simp
    show ?thesis
      using ne ins lp b by (auto simp: NewEntry_def Let_def)
  qed
  have thumb_rej: "\<not> accepted item f" if "Name f = ''__ia_thumb.jpg''" for f
    using that by (simp add: accepted_def)
  have iff: "fst (NewEntry im item s) \<noteq> None \<longleftrightarrow>
      Files im = []
      \<or> item \<in> snd ` set (archive_items s)
      \<or> (\<forall>f \<in> set (Files im). \<not> accepted item f \<or> decoded f \<in> fst ` set (hashes s))"
  proof (cases "Files im = []")
    case True
    then show ?thesis using empty by simp
  next
    case ne: False
    show ?thesis
    proof (cases "item \<in> snd ` set (archive_items s)")
      case True
      then show ?thesis using dup [OF ne] by simp
    next
      case False
      then show ?thesis using loop [OF ne False] ne by (simp split: if_splits)
    qed
  qed
  have thumb_only: "(\<exists>f. Files im = [f] \<and> Name f = ''__ia_thumb.jpg'') \<longrightarrow>
        fst (NewEntry im item s) \<noteq> None"
    using iff thumb_rej by auto
  show ?thesis
    using iff empty dup loop thumb_only by (simp split: if_splits)
qed

theorem NewEntry_fails_iff_witness:
  "NewEntry \<lparr>Files = [], IsCollection = False\<rparr> ''x'' empty_store
       = (Some (Errorf ''no files''), empty_store)
   \<and> ''x'' \<in> snd ` set (archive_items store_x)
   \<and> NewEntry \<lparr>Files = [more_bin], IsCollection = False\<rparr> ''x'' store_x
       = (Some (ErrConstraint ''UNIQUE constraint failed: archive_items.name''), store_x)
   \<and> ''x'' \<notin> snd ` set (archive_items empty_store)
   \<and> fst (NewEntry \<lparr>Files = [thumb], IsCollection = False\<rparr> ''x'' empty_store)
       = Some (Errorf ''no valid files'')
   \<and> fst (NewEntry \<lparr>Files = [thumb, x_meta, data_bin], IsCollection = False\<rparr> ''x''
            empty_store)
       = None"
proof -
  have a: "''x'' \<in> snd ` set (archive_items store_x)"
    by (simp add: store_x_eq)
  have b: "''x'' \<notin> snd ` set (archive_items empty_store)"
    by (simp add: empty_store_eq)
  have c: "decoded data_bin \<notin> fst ` set (hashes empty_store)"
    by (simp add: empty_store_eq)
  have 1: "NewEntry \<lparr>Files = [], IsCollection = False\<rparr> ''x'' empty_store
       = (Some (Errorf ''no files''), empty_store)"
    using NewEntry_fails_iff [of "\<lparr>Files = [], IsCollection = False\<rparr>" "''x''" empty_store]
    by simp
  have 2: "NewEntry \<lparr>Files = [more_bin], IsCollection = False\<rparr> ''x'' store_x
       = (Some (ErrConstraint ''UNIQUE constraint failed: archive_items.name''), store_x)"
    using NewEntry_fails_iff [of "\<lparr>Files = [more_bin], IsCollection = False\<rparr>" "''x''" store_x] a
    by simp
  have 3: "fst (NewEntry \<lparr>Files = [thumb], IsCollection = False\<rparr> ''x'' empty_store)
       = Some (Errorf ''no valid files'')"
    using NewEntry_fails_iff [of "\<lparr>Files = [thumb], IsCollection = False\<rparr>" "''x''" empty_store]
      b rejected_thumb
    by simp
  have 4: "fst (NewEntry \<lparr>Files = [thumb, x_meta, data_bin], IsCollection = False\<rparr> ''x''
                  empty_store)
       = None"
    using NewEntry_fails_iff [of "\<lparr>Files = [thumb, x_meta, data_bin], IsCollection = False\<rparr>"
        "''x''" empty_store] b c accepted_data_bin
    by auto
  show ?thesis using a b 1 2 3 4 by simp
qed

text \<open>
  Claim C3 as stated fails: the item \<open>x\<close> is already recorded, the one file offered is
  accepted by the filter and its hash is new to the store, so the list is not empty and a
  hash row would survive; yet \<open>NewEntry\<close> fails, with the error of the refused item row.
\<close>

theorem NewEntry_recorded_item_fails:
  "Files \<lparr>Files = [more_bin], IsCollection = False\<rparr> \<noteq> []
   \<and> accepted ''x'' more_bin
   \<and> decoded more_bin \<notin> fst ` set (hashes store_x)
   \<and> NewEntry \<lparr>Files = [more_bin], IsCollection = False\<rparr> ''x'' store_x
       = (Some (ErrConstraint ''UNIQUE constraint failed: archive_items.name''), store_x)"
  by (simp add: accepted_more_bin decoded_def decoded_more_bin)
     (simp add: store_x_eq NewEntry_def insName_Exec_def Rollback_def)

text \<open>
  The rows left behind after \<open>no valid files\<close>: the transaction \<open>NewEntry\<close> opens holds
  no statement, so its rollback undoes nothing and the item row stays.
\<close>

lemma NewEntry_thumb_only_keeps_item_row:
  "NewEntry \<lparr>Files = [thumb], IsCollection = False\<rparr> ''x'' empty_store
     = (Some (Errorf ''no valid files''),
        \<lparr>db_name = ''hashes.db'', archive_items = [(1, ''x'')], seq = 1, hashes = []\<rparr>)"
  by (simp add: NewEntry_def Begin_def Rollback_def insName_Exec_def empty_store_eq
      insert_file_eq rejected_thumb)

end
